theory Spec2Isabelle
  imports Main "HOL-Library.Sublist" "HOL-Library.Char_ord" "HOL-Library.List_Lexorder"
    "HOL-Library.Multiset"
begin

section \<open>Errors, results and observable effects\<close>

text \<open>
  Arguments handed to a format string or to a SQL statement. \<open>ArgPtr\<close> is a pointer to a
  migration ID, \<open>None\<close> when nil (\<open>Migrate\<close> passes its \<open>upto\<close> pointer to \<open>Debugf\<close>).
\<close>

datatype arg = ArgStr string | ArgInt int | ArgPtr "int option"

text \<open>
  Go error values. \<open>Errorf fmt args e\<close> is \<open>fmt.Errorf\<close> with a \<open>%w\<close> verb wrapping \<open>e\<close>;
  \<open>PgError code\<close> is a \<open>*pgconn.PgError\<close> with that SQLSTATE code; \<open>SysError\<close> is any other
  error of the operating system or of the database driver, by its message.
\<close>

datatype go_error =
    ErrNegativeID
  | ErrDuplicateID
  | ErrSyntax
  | ErrRange
  | PgError string
  | SysError string
  | Errorf string "arg list" go_error

text \<open>\<open>errors.As(err, &pgerr)\<close>: the first \<open>*pgconn.PgError\<close> on the unwrap chain.\<close>

fun errors_As_PgError :: "go_error \<Rightarrow> string option" where
  "errors_As_PgError (PgError code) = Some code"
| "errors_As_PgError (Errorf _ _ e) = errors_As_PgError e"
| "errors_As_PgError _ = None"

text \<open>\<open>errors.Is(err, target)\<close> for a sentinel target.\<close>

fun errors_Is :: "go_error \<Rightarrow> go_error \<Rightarrow> bool" where
  "errors_Is (Errorf f as e) t = (Errorf f as e = t \<or> errors_Is e t)"
| "errors_Is e t = (e = t)"

text \<open>
  The outcome of a call that returns \<open>(value, error)\<close>: a value, a returned error, or a
  panic (nothing in the package recovers, so a panic passes through every caller).
\<close>

datatype 'a result = Ok 'a | Err go_error | Panic go_error

datatype oflag = O_WRONLY | O_CREATE | O_EXCL | O_TRUNC

text \<open>
  What a run does to the outside world, in order: messages on the \<open>IO\<close> interface, calls on
  the database handle, and the calls that change the migrations directory. \<open>InfofTable\<close> is
  the \<open>Infof\<close> of the table of renames (old name, new name) that \<open>Renumber\<close> renders.
\<close>

datatype event =
    Infof string "arg list"
  | Debugf string "arg list"
  | Query string
  | BeginTx
  | TxExec string "arg list"
  | Commit
  | DbExec string "arg list"
  | OpenFile string "oflag list"
  | WriteFile string string
  | Rename string string
  | InfofTable "(string \<times> string) list"

section \<open>Migration IDs\<close>

type_synonym MigrationID = int

definition NewMigrationID :: "int \<Rightarrow> go_error + MigrationID" where
  "NewMigrationID i = (if i < 0 then Inl (Errorf ''%w: %d'' [ArgInt i] ErrNegativeID) else Inr i)"

definition is_digit :: "char \<Rightarrow> bool" where
  "is_digit c = (c \<in> set ''0123456789'')"

definition digit_char :: "nat \<Rightarrow> char" where
  "digit_char d = ''0123456789'' ! d"

definition digit_val :: "char \<Rightarrow> nat" where
  "digit_val c = of_char c - 48"

text \<open>The decimal digits of a natural number, as \<open>%d\<close> prints them.\<close>

fun decimal :: "nat \<Rightarrow> string" where
  "decimal n = (if n < 10 then [digit_char n] else decimal (n div 10) @ [digit_char (n mod 10)])"

declare decimal.simps [simp del]

text \<open>\<open>fmt.Sprintf("%d", m)\<close>.\<close>

definition Sprintf_d :: "int \<Rightarrow> string" where
  "Sprintf_d m = (if m < 0 then CHR ''-'' # decimal (nat (- m)) else decimal (nat m))"

definition zero_pad :: "nat \<Rightarrow> string \<Rightarrow> string" where
  "zero_pad w ds = replicate (w - length ds) CHR ''0'' @ ds"

text \<open>
  \<open>fmt.Sprintf("%0*d", w, m)\<close> for a width \<open>w \<ge> 0\<close>: the digits are padded with zeros up to
  the width, one less when a sign is printed.
\<close>

definition Sprintf_0wd :: "nat \<Rightarrow> int \<Rightarrow> string" where
  "Sprintf_0wd w m =
     (if m < 0 then CHR ''-'' # zero_pad (w - 1) (decimal (nat (- m)))
      else zero_pad w (decimal (nat m)))"

definition Width :: "MigrationID \<Rightarrow> nat" where
  "Width m = length (Sprintf_d m)"

definition digits_value :: "string \<Rightarrow> nat" where
  "digits_value ds = foldl (\<lambda>acc c. 10 * acc + digit_val c) 0 ds"

text \<open>\<open>strconv.ParseInt(s, 10, 64)\<close>: an optional sign, digits, and the int64 range.\<close>

definition strconv_ParseInt :: "string \<Rightarrow> go_error + int" where
  "strconv_ParseInt s =
     (let (neg, ds) = (case s of
            [] \<Rightarrow> (False, [])
          | c # r \<Rightarrow> if c = CHR ''-'' then (True, r) else if c = CHR ''+'' then (False, r) else (False, s))
      in if ds = [] \<or> \<not> list_all is_digit ds then Inl ErrSyntax
         else let n = int (digits_value ds); v = (if neg then - n else n)
              in if v < - (2 ^ 63) \<or> 2 ^ 63 - 1 < v then Inl ErrRange else Inr v)"

text \<open>\<open>(*MigrationID).Set\<close>, returning the error or the value stored.\<close>

definition MigrationID_Set :: "string \<Rightarrow> go_error + MigrationID" where
  "MigrationID_Set s =
     (case strconv_ParseInt s of
        Inl e \<Rightarrow> Inl (Errorf ''not a valid integer: %w'' [] e)
      | Inr i \<Rightarrow> NewMigrationID i)"

text \<open>\<open>mustID\<close>: \<open>Inl\<close> is the value it panics with.\<close>

definition mustID :: "string \<Rightarrow> go_error + MigrationID" where
  "mustID s = MigrationID_Set s"

section \<open>Regular expressions of the package\<close>

text \<open>
  \<open>reFilename = ^(?P<id>\d+)-(?P<slug>.*)\.sql$\<close>, as \<open>FindStringSubmatch\<close> answers: the two
  groups, or nothing. \<open>\d\<close> is an ASCII digit, \<open>.\<close> is any character but a newline, and
  without the \<open>m\<close> flag \<open>$\<close> is the end of the text. The digits must be followed by the
  hyphen at once, so the ID group is the longest run of leading digits.
\<close>

definition reFilename_FindStringSubmatch :: "string \<Rightarrow> (string \<times> string) option" where
  "reFilename_FindStringSubmatch name =
     (let ds = takeWhile is_digit name; rest = dropWhile is_digit name
      in if ds = [] then None
         else case rest of
             [] \<Rightarrow> None
           | c # r \<Rightarrow>
               if c = CHR ''-'' \<and> 4 \<le> length r \<and> drop (length r - 4) r = ''.sql''
                  \<and> CHR 0x0A \<notin> set r
               then Some (ds, take (length r - 4) r) else None)"

definition directive :: string where
  "directive = ''--drift:no-transaction''"

text \<open>
  \<open>reNoTxComment = (?m)^--drift:no-transaction\<close>, as \<open>MatchString\<close> answers: with the \<open>m\<close>
  flag \<open>^\<close> is the start of the text or the position after a newline. The flag of
  \<open>match_from\<close> says whether the position is such a start.
\<close>

fun match_from :: "bool \<Rightarrow> string \<Rightarrow> bool" where
  "match_from bol [] = False"
| "match_from bol (c # cs) = ((bol \<and> prefix directive (c # cs)) \<or> match_from (c = CHR 0x0A) cs)"

definition skipTx :: "string \<Rightarrow> bool" where
  "skipTx content = match_from True content"

text \<open>
  \<open>reSeparator = [\-\s._/]+\<close>; \<open>\s\<close> is tab, newline, form feed, carriage return and space.
\<close>

definition is_separator :: "char \<Rightarrow> bool" where
  "is_separator c = (c \<in> {CHR ''-'', CHR 0x09, CHR 0x0A, CHR 0x0C, CHR 0x0D, CHR '' '',
                           CHR ''.'', CHR ''_'', CHR ''/''})"

text \<open>\<open>reSeparator.ReplaceAllString(s, "_")\<close>: every maximal run of separators becomes one underscore.\<close>

function slugify :: "string \<Rightarrow> string" where
  "slugify [] = []"
| "slugify (c # cs) =
     (if is_separator c then CHR ''_'' # slugify (dropWhile is_separator cs) else c # slugify cs)"
  by pat_completeness auto
termination
  by (relation "measure length") (auto simp: length_dropWhile_le less_Suc_eq_le)

section \<open>The database handle\<close>

record migrationRecord =
  ID :: MigrationID
  Slug :: string
  RunAt :: int

text \<open>
  The rows a query answers with: the records \<open>scan.RowsStrict\<close> reads from them, and the
  error it reports, if any.
\<close>

datatype rows = Rows "migrationRecord list" "go_error option"

definition scan_RowsStrict :: "rows \<Rightarrow> go_error + migrationRecord list" where
  "scan_RowsStrict rs = (case rs of Rows ms None \<Rightarrow> Inr ms | Rows ms (Some err) \<Rightarrow> Inl err)"

text \<open>
  The database behind \<open>*sql.DB\<close> is outside the package. Its contents have some type \<open>'d\<close>,
  and a driver says how it answers each call: a query answers rows or an error; opening a
  transaction and committing may fail; executing a statement gives new contents and
  possibly an error. A transaction works on a copy of the contents, and the copy replaces
  the contents only when \<open>Commit\<close> succeeds.
\<close>

record 'd driver =
  drv_Query :: "string \<Rightarrow> 'd \<Rightarrow> go_error + rows"
  drv_BeginTx :: "'d \<Rightarrow> go_error option"
  drv_Exec :: "string \<Rightarrow> arg list \<Rightarrow> 'd \<Rightarrow> go_error option \<times> 'd"
  drv_Commit :: "'d \<Rightarrow> go_error option"

text \<open>A \<open>Queryable\<close> is the handle itself or an open transaction.\<close>

datatype queryable = OnDb | OnTx

definition exec_event :: "queryable \<Rightarrow> string \<Rightarrow> arg list \<Rightarrow> event" where
  "exec_event q query args = (case q of OnDb \<Rightarrow> DbExec query args | OnTx \<Rightarrow> TxExec query args)"

definition qApplied :: string where
  "qApplied = ''SELECT * FROM schema_migrations ORDER BY id asc''"

definition qClaim :: string where
  "qClaim = ''SELECT _drift_claim_migration($1,$2)''"

definition applied :: "'d driver \<Rightarrow> 'd \<Rightarrow> (go_error + migrationRecord list) \<times> event list" where
  "applied drv d =
     (case drv_Query drv qApplied d of
        Inl err \<Rightarrow>
          if errors_As_PgError err = Some ''42P01'' then (Inr [], [Query qApplied])
          else (Inl err, [Query qApplied])
      | Inr rs \<Rightarrow> (scan_RowsStrict rs, [Query qApplied]))"

section \<open>The migrations directory\<close>

text \<open>
  The directory is missing, or it holds named entries: regular files with their content,
  and subdirectories (which cannot be read as files). No two entries share a name.
\<close>

datatype node = File string | Subdir

type_synonym fs = "(string \<times> node) list option"

definition ENOENT :: go_error where "ENOENT = SysError ''no such file or directory''"
definition EISDIR :: go_error where "EISDIR = SysError ''is a directory''"
definition ENOTDIR :: go_error where "ENOTDIR = SysError ''not a directory''"
definition EEXIST :: go_error where "EEXIST = SysError ''file exists''"

text \<open>\<open>os.ReadDir\<close>: the names of the entries, sorted by name.\<close>

definition os_ReadDir :: "fs \<Rightarrow> go_error + string list" where
  "os_ReadDir d = (case d of None \<Rightarrow> Inl ENOENT | Some es \<Rightarrow> Inr (sort (map fst es)))"

definition os_ReadFile :: "fs \<Rightarrow> string \<Rightarrow> go_error + string" where
  "os_ReadFile d name =
     (case d of
        None \<Rightarrow> Inl ENOENT
      | Some es \<Rightarrow>
          (case map_of es name of
             None \<Rightarrow> Inl ENOENT
           | Some Subdir \<Rightarrow> Inl EISDIR
           | Some (File content) \<Rightarrow> Inr content))"

text \<open>
  \<open>os.OpenFile\<close> for writing: with \<open>O_CREATE\<close> and \<open>O_EXCL\<close> an existing entry is an error;
  with \<open>O_TRUNC\<close> an existing file is emptied; with \<open>O_CREATE\<close> a missing file is created.
\<close>

definition os_OpenFile :: "fs \<Rightarrow> string \<Rightarrow> oflag list \<Rightarrow> go_error + fs" where
  "os_OpenFile d name flags =
     (case d of
        None \<Rightarrow> Inl ENOENT
      | Some es \<Rightarrow>
          (case map_of es name of
             None \<Rightarrow>
               if O_CREATE \<in> set flags then Inr (Some (es @ [(name, File [])])) else Inl ENOENT
           | Some n \<Rightarrow>
               if O_CREATE \<in> set flags \<and> O_EXCL \<in> set flags then Inl EEXIST
               else if n = Subdir then Inl EISDIR
               else if O_TRUNC \<in> set flags
                 then Inr (Some (map (\<lambda>(k, v). if k = name then (k, File []) else (k, v)) es))
                 else Inr d))"

text \<open>Writing to an open file appends to its content.\<close>

definition file_Write :: "fs \<Rightarrow> string \<Rightarrow> string \<Rightarrow> fs" where
  "file_Write d name data =
     map_option (map (\<lambda>(k, v). if k = name then (k, (case v of File c \<Rightarrow> File (c @ data) | Subdir \<Rightarrow> Subdir)) else (k, v))) d"

text \<open>
  \<open>os.Rename\<close> inside the directory: the old entry must exist; a file does not replace a
  subdirectory, nor a subdirectory a file; otherwise the new name now holds the old entry,
  replacing what it held.
\<close>

definition os_Rename :: "fs \<Rightarrow> string \<Rightarrow> string \<Rightarrow> go_error + fs" where
  "os_Rename d old new =
     (case d of
        None \<Rightarrow> Inl ENOENT
      | Some es \<Rightarrow>
          (case map_of es old of
             None \<Rightarrow> Inl ENOENT
           | Some n \<Rightarrow>
               if old = new then Inr d
               else if n \<noteq> Subdir \<and> map_of es new = Some Subdir then Inl EISDIR
               else if n = Subdir \<and> map_of es new \<noteq> None \<and> map_of es new \<noteq> Some Subdir then Inl ENOTDIR
               else Inr (Some ((new, n) # filter (\<lambda>(k, v). k \<noteq> old \<and> k \<noteq> new) es))))"

text \<open>
  \<open>filepath.Join(dir, name)\<close>. Every name the package joins is free of separators, so the
  path names the entry \<open>name\<close> of the directory.
\<close>

definition filepath_Join :: "string \<Rightarrow> string \<Rightarrow> string" where
  "filepath_Join dir name = dir @ ''/'' @ name"

section \<open>Discovery\<close>

record migrationFile =
  Path :: string
  Name :: string
  Content :: string
  ID :: MigrationID
  Slug :: string
  idRaw :: string

text \<open>
  The first loop of \<open>available\<close>, over the listed names: a name that does not match is
  reported and skipped; a matching file is read, and its ID parsed (\<open>mustID\<close> panics when
  the digits do not fit an int64). Events of the entries before a failure are kept.
\<close>

fun scan_entries :: "fs \<Rightarrow> string \<Rightarrow> string list \<Rightarrow> migrationFile list result \<times> event list" where
  "scan_entries d dir [] = (Ok [], [])"
| "scan_entries d dir (name # names) =
     (case reFilename_FindStringSubmatch name of
        None \<Rightarrow>
          (case scan_entries d dir names of
             (r, ev) \<Rightarrow> (r, Debugf ''Ignoring non-migration file: %s'' [ArgStr name] # ev))
      | Some (raw, slug) \<Rightarrow>
          (case os_ReadFile d name of
             Inl err \<Rightarrow> (Err err, [])
           | Inr content \<Rightarrow>
               (case mustID raw of
                  Inl p \<Rightarrow> (Panic p, [])
                | Inr mid \<Rightarrow>
                    (case scan_entries d dir names of
                       (Ok ms, ev) \<Rightarrow>
                         (Ok (\<lparr>Path = filepath_Join dir name, Name = name, Content = content,
                               ID = mid, Slug = slug, idRaw = raw\<rparr> # ms), ev)
                     | (r, ev) \<Rightarrow> (r, ev)))))"

text \<open>The second loop of \<open>available\<close>: the map \<open>seen\<close> from IDs to files.\<close>

fun check_seen :: "(MigrationID \<rightharpoonup> migrationFile) \<Rightarrow> migrationFile list \<Rightarrow> go_error option" where
  "check_seen seen [] = None"
| "check_seen seen (m # ms) =
     (case seen (migrationFile.ID m) of
        Some other \<Rightarrow> Some (Errorf ''%w: %s, %s'' [ArgStr (Name other), ArgStr (Name m)] ErrDuplicateID)
      | None \<Rightarrow> check_seen (seen(migrationFile.ID m \<mapsto> m)) ms)"

definition available :: "fs \<Rightarrow> string \<Rightarrow> migrationFile list result \<times> event list" where
  "available d dir =
     (case os_ReadDir d of
        Inl err \<Rightarrow> (Err (Errorf ''could not list migration files: %w'' [] err), [])
      | Inr names \<Rightarrow>
          (case scan_entries d dir names of
             (Ok ms, ev) \<Rightarrow>
               (case check_seen Map.empty ms of
                  Some err \<Rightarrow> (Err err, ev)
                | None \<Rightarrow> (Ok ms, ev))
           | (r, ev) \<Rightarrow> (r, ev)))"

section \<open>Reconciling and applying\<close>

text \<open>
  \<open>sort.Slice\<close> with the comparison \<open>needed[i].ID < needed[j].ID\<close>. The library's sort is
  not stable; the order of files with equal IDs is left open by Go and fixed here as the
  order of arrival.
\<close>

definition sort_Slice :: "('a \<Rightarrow> int) \<Rightarrow> 'a list \<Rightarrow> 'a list" where
  "sort_Slice key xs = sort_key key xs"

definition diff :: "migrationRecord list \<Rightarrow> migrationFile list \<Rightarrow> migrationFile list" where
  "diff applied_records files =
     (let skip = foldl (\<lambda>m r. m(migrationRecord.ID r \<mapsto> ())) Map.empty applied_records;
          needed = filter (\<lambda>f. skip (migrationFile.ID f) = None) files
      in sort_Slice migrationFile.ID needed)"

definition run :: "'d driver \<Rightarrow> queryable \<Rightarrow> string \<Rightarrow> 'd \<Rightarrow> go_error option \<times> event list \<times> 'd" where
  "run drv tx content s =
     (case drv_Exec drv content [] s of (err, s') \<Rightarrow> (err, [exec_event tx content []], s'))"

definition claim :: "'d driver \<Rightarrow> queryable \<Rightarrow> MigrationID \<Rightarrow> string \<Rightarrow> 'd \<Rightarrow> go_error option \<times> event list \<times> 'd" where
  "claim drv tx mid slug s =
     (case drv_Exec drv qClaim [ArgInt mid, ArgStr slug] s of
        (err, s') \<Rightarrow> (err, [exec_event tx qClaim [ArgInt mid, ArgStr slug]], s'))"

text \<open>
  \<open>apply\<close>. On every early return of the transactional branch the transaction is left
  uncommitted, so the contents stay as they were.
\<close>

definition apply_file :: "'d driver \<Rightarrow> migrationFile \<Rightarrow> 'd \<Rightarrow> go_error option \<times> event list \<times> 'd" where
  "apply_file drv f d =
     (if skipTx (Content f) then run drv OnDb (Content f) d
      else case drv_BeginTx drv d of
          Some err \<Rightarrow> (Some err, [BeginTx], d)
        | None \<Rightarrow>
            (case claim drv OnTx (migrationFile.ID f) (migrationFile.Slug f) d of
               (Some err, ev1, t1) \<Rightarrow> (Some err, BeginTx # ev1, d)
             | (None, ev1, t1) \<Rightarrow>
                 (case run drv OnTx (Content f) t1 of
                    (Some err, ev2, t2) \<Rightarrow> (Some err, BeginTx # ev1 @ ev2, d)
                  | (None, ev2, t2) \<Rightarrow>
                      (case drv_Commit drv t2 of
                         Some err \<Rightarrow> (Some err, BeginTx # ev1 @ ev2 @ [Commit], d)
                       | None \<Rightarrow> (None, BeginTx # ev1 @ ev2 @ [Commit], t2)))))"

definition over_upto :: "MigrationID option \<Rightarrow> migrationFile \<Rightarrow> bool" where
  "over_upto upTo f = (case upTo of None \<Rightarrow> False | Some u \<Rightarrow> u < migrationFile.ID f)"

text \<open>The loop of \<open>Migrate\<close> over the needed files.\<close>

fun migrate_loop ::
  "'d driver \<Rightarrow> MigrationID option \<Rightarrow> migrationFile list \<Rightarrow> 'd \<Rightarrow> go_error option \<times> event list \<times> 'd" where
  "migrate_loop drv upTo [] d = (None, [], d)"
| "migrate_loop drv upTo (f # fs) d =
     (if over_upto upTo f then
        (case migrate_loop drv upTo fs d of
           (r, ev, d') \<Rightarrow>
             (r, Debugf ''Skipping migration because of upto=%d: %s''
                   [ArgPtr upTo, ArgStr (Name f)] # ev, d'))
      else
        (case apply_file drv f d of
           (Some err, ev, d') \<Rightarrow> (Some err, Infof ''Applying migration: %s'' [ArgStr (Name f)] # ev, d')
         | (None, ev, d') \<Rightarrow>
             (case migrate_loop drv upTo fs d' of
                (r, ev', d'') \<Rightarrow>
                  (r, Infof ''Applying migration: %s'' [ArgStr (Name f)] # ev @ ev', d''))))"

definition Migrate ::
  "'d driver \<Rightarrow> fs \<Rightarrow> string \<Rightarrow> MigrationID option \<Rightarrow> 'd \<Rightarrow> unit result \<times> event list \<times> 'd" where
  "Migrate drv fsys migrationsDir upTo d =
     (case applied drv d of
        (Inl err, ev1) \<Rightarrow> (Err (Errorf ''could not get applied migrations: %w'' [] err), ev1, d)
      | (Inr records, ev1) \<Rightarrow>
          (case available fsys migrationsDir of
             (Err err, ev2) \<Rightarrow>
               (Err (Errorf ''could not get available migrations: %w'' [] err), ev1 @ ev2, d)
           | (Panic p, ev2) \<Rightarrow> (Panic p, ev1 @ ev2, d)
           | (Ok files, ev2) \<Rightarrow>
               (case migrate_loop drv upTo (diff records files) d of
                  (Some err, ev3, d') \<Rightarrow> (Err err, ev1 @ ev2 @ ev3, d')
                | (None, ev3, d') \<Rightarrow>
                    (Ok (), ev1 @ ev2 @ ev3 @ [Infof ''All migrations applied!'' []], d'))))"

section \<open>Naming\<close>

definition idWidth :: "migrationFile list \<Rightarrow> nat" where
  "idWidth files =
     foldl (\<lambda>width f. if width < Width (migrationFile.ID f) then Width (migrationFile.ID f) else width) 0 files"

definition filename :: "nat \<Rightarrow> MigrationID \<Rightarrow> string \<Rightarrow> string" where
  "filename w mid slug = Sprintf_0wd w mid @ ''-'' @ slug @ ''.sql''"


text \<open>The first loop of \<open>Renumber\<close>: the renames, as pairs of the old and the new name.\<close>

fun renames_of :: "nat \<Rightarrow> migrationFile list \<Rightarrow> (string \<times> string) list" where
  "renames_of width [] = []"
| "renames_of width (f # fs) =
     (if length (idRaw f) \<noteq> width
      then (Name f, filename width (migrationFile.ID f) (migrationFile.Slug f)) # renames_of width fs
      else renames_of width fs)"

text \<open>The last loop of \<open>Renumber\<close>: the renames in turn, stopping at the first error.\<close>

fun rename_all :: "fs \<Rightarrow> string \<Rightarrow> (string \<times> string) list \<Rightarrow> go_error option \<times> event list \<times> fs" where
  "rename_all d dir [] = (None, [], d)"
| "rename_all d dir ((a, b) # rs) =
     (case os_Rename d a b of
        Inl err \<Rightarrow> (Some err, [Rename (filepath_Join dir a) (filepath_Join dir b)], d)
      | Inr d' \<Rightarrow>
          (case rename_all d' dir rs of
             (r, ev, d'') \<Rightarrow> (r, Rename (filepath_Join dir a) (filepath_Join dir b) # ev, d'')))"

definition Renumber :: "fs \<Rightarrow> string \<Rightarrow> bool \<Rightarrow> unit result \<times> event list \<times> fs" where
  "Renumber d dir write =
     (case available d dir of
        (Err err, ev) \<Rightarrow> (Err err, ev, d)
      | (Panic p, ev) \<Rightarrow> (Panic p, ev, d)
      | (Ok files, ev) \<Rightarrow>
          (let width = idWidth files; renames = renames_of width files
           in if renames = [] then (Ok (), ev @ [Infof ''Nothing to do.'' []], d)
              else if \<not> write
                then (Ok (), ev @ [Infof ''Renames:'' [], InfofTable renames,
                                   Infof ''Skipping renames because write is off'' []], d)
                else (case rename_all d dir renames of
                        (Some err, ev', d') \<Rightarrow>
                          (Err err, ev @ [Infof ''Renames:'' [], InfofTable renames,
                                          Infof ''Renaming files'' []] @ ev', d')
                      | (None, ev', d') \<Rightarrow>
                          (Ok (), ev @ [Infof ''Renames:'' [], InfofTable renames,
                                        Infof ''Renaming files'' []] @ ev' @ [Infof ''Done!'' []], d'))))"

section \<open>Creating files\<close>

record TemplateData =
  ID :: MigrationID
  Slug :: string

text \<open>
  A template, by what \<open>Execute\<close> does with the data: the text it writes to the file, and
  the error it returns, if any. The embedded default template \<open>templates/new.sql\<close> is a
  parameter of \<open>NewFile\<close>.
\<close>

type_synonym template = "TemplateData \<Rightarrow> string \<times> go_error option"

text \<open>
  \<open>NewFile\<close>, with the clock reading \<open>now\<close> (\<open>time.Now().Unix()\<close>) as a parameter. The
  file is opened with \<open>O_WRONLY|O_CREATE|O_TRUNC\<close>.
\<close>

definition NewFile ::
  "template \<Rightarrow> int \<Rightarrow> fs \<Rightarrow> string \<Rightarrow> MigrationID \<Rightarrow> string \<Rightarrow> template option
     \<Rightarrow> string result \<times> event list \<times> fs" where
  "NewFile defaultTemplate now d migrationsDir mid slug tmpl =
     (let tmpl' = (case tmpl of None \<Rightarrow> defaultTemplate | Some t \<Rightarrow> t)
      in case (if mid = - 1 then NewMigrationID now else Inr mid) of
          Inl err \<Rightarrow> (Err (Errorf ''invalid migration ID: %w'' [] err), [], d)
        | Inr mid' \<Rightarrow>
            (case available d migrationsDir of
               (Err err, ev) \<Rightarrow> (Err err, ev, d)
             | (Panic p, ev) \<Rightarrow> (Panic p, ev, d)
             | (Ok files, ev) \<Rightarrow>
                 (case find (\<lambda>f. migrationFile.ID f = mid') files of
                    Some f \<Rightarrow>
                      (Err (Errorf ''%w: %d: %s'' [ArgInt mid', ArgStr (Name f)] ErrDuplicateID), ev, d)
                  | None \<Rightarrow>
                      (let slug' = slugify slug;
                           name = filename (idWidth files) mid' slug';
                           path = filepath_Join migrationsDir name;
                           flags = [O_WRONLY, O_CREATE, O_TRUNC]
                       in case os_OpenFile d name flags of
                           Inl err \<Rightarrow> (Err err, ev @ [OpenFile path flags], d)
                         | Inr d1 \<Rightarrow>
                             (case tmpl' \<lparr>ID = mid', Slug = slug'\<rparr> of
                                (out, werr) \<Rightarrow>
                                  ((case werr of None \<Rightarrow> Ok path | Some err \<Rightarrow> Err err),
                                   ev @ [OpenFile path flags, WriteFile path out],
                                   file_Write d1 name out))))))"

text \<open>
  \<open>safeWriteFile\<close>, which opens with \<open>O_WRONLY|O_CREATE|O_EXCL|O_TRUNC\<close>; the outcomes of
  the write and of closing the file are parameters. The write error is preferred.
\<close>

definition safeWriteFile ::
  "go_error option \<Rightarrow> go_error option \<Rightarrow> fs \<Rightarrow> string \<Rightarrow> string \<Rightarrow> string
     \<Rightarrow> go_error option \<times> event list \<times> fs" where
  "safeWriteFile werr cerr d dir name data =
     (let path = filepath_Join dir name; flags = [O_WRONLY, O_CREATE, O_EXCL, O_TRUNC]
      in case os_OpenFile d name flags of
          Inl err \<Rightarrow> (Some err, [OpenFile path flags], d)
        | Inr d1 \<Rightarrow>
            ((case werr of Some err \<Rightarrow> Some err | None \<Rightarrow> cerr),
             [OpenFile path flags, WriteFile path data],
             (if werr = None then file_Write d1 name data else d1)))"

text \<open>
  \<open>Setup\<close>, with the embedded \<open>templates/init.sql\<close> as \<open>initContent\<close>. \<open>os.MkdirAll\<close> creates
  a missing directory and leaves an existing one alone.
\<close>

definition Setup ::
  "string \<Rightarrow> go_error option \<Rightarrow> go_error option \<Rightarrow> fs \<Rightarrow> string \<Rightarrow> string result \<times> event list \<times> fs" where
  "Setup initContent werr cerr d migrationsDir =
     (let d0 = (case d of None \<Rightarrow> Some [] | Some es \<Rightarrow> Some es);
          name = Sprintf_d 0 @ ''-'' @ ''init'' @ ''.sql''
      in case safeWriteFile werr cerr d0 migrationsDir name initContent of
          (Some err, ev, d1) \<Rightarrow> (Err (Errorf ''could not create migration file: %w'' [] err), ev, d1)
        | (None, ev, d1) \<Rightarrow> (Ok (filepath_Join migrationsDir name), ev, d1))"

section \<open>The specification's reading of the filename width, the directive and the pending set\<close>

text \<open>The number of decimal digits of a natural number.\<close>

fun digit_length :: "nat \<Rightarrow> nat" where
  "digit_length n = (if n < 10 then 1 else Suc (digit_length (n div 10)))"

declare digit_length.simps [simp del]

text \<open>
  The width as the specification words it: the greatest digit length of the IDs, and at
  least 1.
\<close>

definition spec_width :: "migrationFile list \<Rightarrow> nat" where
  "spec_width files = max 1 (foldr (\<lambda>f m. max (digit_length (nat (migrationFile.ID f))) m) files 0)"

text \<open>The lines of a text: the pieces between newlines.\<close>

fun split_lines :: "string \<Rightarrow> string list" where
  "split_lines [] = [[]]"
| "split_lines (c # cs) =
     (if c = CHR 0x0A then [] # split_lines cs
      else (case split_lines cs of [] \<Rightarrow> [[c]] | l # ls \<Rightarrow> (c # l) # ls))"

definition is_space :: "char \<Rightarrow> bool" where
  "is_space c = (c \<in> {CHR '' '', CHR 0x09, CHR 0x0B, CHR 0x0C, CHR 0x0D})"

text \<open>
  The directive as the specification words it: some line is exactly the literal, after
  optional leading whitespace.
\<close>

definition spec_no_transaction :: "string \<Rightarrow> bool" where
  "spec_no_transaction content = (\<exists>l \<in> set (split_lines content). dropWhile is_space l = directive)"

text \<open>The directive as the code reads it: some line starts with the literal.\<close>

definition line_starts_with_directive :: "string \<Rightarrow> bool" where
  "line_starts_with_directive content = (\<exists>l \<in> set (split_lines content). prefix directive l)"

text \<open>
  The pending set as the specification words it: the available files whose ID is not
  applied and not above the ceiling, sorted by ID.
\<close>

definition spec_pending :: "MigrationID list \<Rightarrow> migrationFile list \<Rightarrow> MigrationID option \<Rightarrow> migrationFile list" where
  "spec_pending applied_ids files ceil =
     sort_key migrationFile.ID
       (filter (\<lambda>f. migrationFile.ID f \<notin> set applied_ids
                   \<and> (case ceil of None \<Rightarrow> True | Some c \<Rightarrow> migrationFile.ID f \<le> c)) files)"

text \<open>The names \<open>Migrate\<close> announces as being applied, and as skipped, in an event trace.\<close>

fun applying_names :: "event list \<Rightarrow> string list" where
  "applying_names [] = []"
| "applying_names (e # ev) =
     (case e of
        Infof fmt [ArgStr n] \<Rightarrow>
          if fmt = ''Applying migration: %s'' then n # applying_names ev else applying_names ev
      | _ \<Rightarrow> applying_names ev)"

fun skipped_names :: "event list \<Rightarrow> string list" where
  "skipped_names [] = []"
| "skipped_names (e # ev) =
     (case e of
        Debugf fmt [p, ArgStr n] \<Rightarrow>
          if fmt = ''Skipping migration because of upto=%d: %s'' then n # skipped_names ev
          else skipped_names ev
      | _ \<Rightarrow> skipped_names ev)"

section \<open>Example data\<close>

text \<open>
  A small database for the examples. Its contents are the ledger rows \<open>(id, slug)\<close>. The
  claim statement adds a row and fails on an ID that is already there, as
  \<open>_drift_claim_migration\<close> of \<open>templates/init.sql\<close> does with the primary key; the statement
  \<open>boom\<close> fails; any other statement succeeds and changes nothing.
\<close>

definition ledger_driver :: "(int \<times> string) list driver" where
  "ledger_driver =
     \<lparr>drv_Query = (\<lambda>q d. Inr (Rows (map (\<lambda>(i, s). \<lparr>migrationRecord.ID = i, migrationRecord.Slug = s, RunAt = 0\<rparr>) d) None)),
      drv_BeginTx = (\<lambda>d. None),
      drv_Exec = (\<lambda>q as d.
         if q = qClaim then
           (case as of
              [ArgInt i, ArgStr s] \<Rightarrow>
                if i \<in> fst ` set d then (Some (PgError ''23505''), d) else (None, d @ [(i, s)])
            | _ \<Rightarrow> (Some (SysError ''bad arguments''), d))
         else if q = ''boom'' then (Some (PgError ''42601''), d)
         else (None, d)),
      drv_Commit = (\<lambda>d. None)\<rparr>"

definition demo_dir :: fs where
  "demo_dir = Some [(''0-init.sql'', File ''--drift:no-transaction''),
                    (''5-add_users.sql'', File ''boom''),
                    (''7-add_posts.sql'', File ''create table posts'')]"

definition demo_file :: "string \<Rightarrow> MigrationID \<Rightarrow> string \<Rightarrow> string \<Rightarrow> migrationFile" where
  "demo_file raw mid slug content =
     \<lparr>Path = filepath_Join ''m'' (raw @ ''-'' @ slug @ ''.sql''), Name = raw @ ''-'' @ slug @ ''.sql'',
      Content = content, ID = mid, Slug = slug, idRaw = raw\<rparr>"

definition demo_files :: "migrationFile list" where
  "demo_files = [demo_file ''7'' 7 ''add_posts'' ''create table posts'',
                 demo_file ''0'' 0 ''init'' ''--drift:no-transaction'',
                 demo_file ''5'' 5 ''add_users'' ''create table users'']"

text \<open>A database whose every query fails with the given error.\<close>

definition failing_driver :: "go_error \<Rightarrow> unit driver" where
  "failing_driver err =
     \<lparr>drv_Query = (\<lambda>q d. Inl err), drv_BeginTx = (\<lambda>d. None),
      drv_Exec = (\<lambda>q as d. (None, d)), drv_Commit = (\<lambda>d. None)\<rparr>"

text \<open>
  The events that execute something on the database, and the events that change the
  migrations directory.
\<close>

fun executes :: "event \<Rightarrow> bool" where
  "executes BeginTx = True"
| "executes (TxExec q as) = True"
| "executes Commit = True"
| "executes (DbExec q as) = True"
| "executes e = False"

definition changes_directory :: "event \<Rightarrow> bool" where
  "changes_directory e = (case e of OpenFile p fl \<Rightarrow> True | WriteFile p data \<Rightarrow> True | Rename a b \<Rightarrow> True | _ \<Rightarrow> False)"

text \<open>A directory in which two files have the ID 1.\<close>

definition duplicate_dir :: fs where
  "duplicate_dir = Some [(''01-b.sql'', File ''B''), (''1-a.sql'', File ''A''), (''notes.txt'', File ''n'')]"

section \<open>Decimal digits\<close>















lemma length_zero_pad: "length (zero_pad w ds) = max w (length ds)"
  by (simp add: zero_pad_def)

lemma length_decimal: "length (decimal n) = digit_length n"
proof (induction n rule: decimal.induct)
  case (1 n)
  show ?case
  proof (cases "n < 10")
    case True
    then show ?thesis
      by (subst decimal.simps, subst digit_length.simps) simp
  next
    case False
    with 1 show ?thesis
      by (subst decimal.simps, subst digit_length.simps) simp
  qed
qed

lemma digit_length_pos: "1 \<le> digit_length n"
  by (subst digit_length.simps) simp

lemma Width_nonneg: "0 \<le> m \<Longrightarrow> Width m = digit_length (nat m)"
  by (simp add: Width_def Sprintf_d_def length_decimal)




lemma Sprintf_0wd_nonneg: "0 \<le> m \<Longrightarrow> Sprintf_0wd w m = zero_pad w (decimal (nat m))"
  by (simp add: Sprintf_0wd_def)




lemma foldl_max_foldr:
  "foldl (\<lambda>w x. if w < g x then g x else w) (a::nat) xs = max a (foldr (\<lambda>x m. max (g x) m) xs 0)"
  by (induction xs arbitrary: a) (auto simp: max_def)

lemma idWidth_foldr:
  "idWidth files = foldr (\<lambda>f m. max (Width (migrationFile.ID f)) m) files 0"
  unfolding idWidth_def by (simp add: foldl_max_foldr [where g = "\<lambda>f. Width (migrationFile.ID f)"])

lemma foldr_width_cong:
  "\<forall>f \<in> set files. 0 \<le> migrationFile.ID f \<Longrightarrow>
   foldr (\<lambda>f m. max (Width (migrationFile.ID f)) m) files 0
     = foldr (\<lambda>f m. max (digit_length (nat (migrationFile.ID f))) m) files 0"
  by (induction files) (simp_all add: Width_nonneg)

lemma foldr_digit_length_pos:
  "files \<noteq> [] \<Longrightarrow> 1 \<le> foldr (\<lambda>f m. max (digit_length (nat (migrationFile.ID f))) m) files 0"
  using digit_length_pos [of "nat (migrationFile.ID (hd files))"]
  by (cases files) (simp_all add: le_max_iff_disj)

section \<open>Slugs\<close>

lemma dropWhile_slugify:
  "xs = [] \<or> \<not> is_separator (hd xs) \<Longrightarrow> dropWhile is_separator (slugify xs) = slugify xs"
  by (cases xs) auto

lemma hd_dropWhile_separator:
  "dropWhile is_separator cs = [] \<or> \<not> is_separator (hd (dropWhile is_separator cs))"
  using hd_dropWhile by blast

text \<open>
  C10. Normalising a slug twice gives what normalising it once gives: for every string
  \<open>s\<close>, \<open>slugify (slugify s) = slugify s\<close>.
\<close>

theorem slugify_idempotent: "slugify (slugify s) = slugify s"
proof (induction s rule: slugify.induct)
  case 1
  show ?case by simp
next
  case (2 c cs)
  show ?case
  proof (cases "is_separator c")
    case True
    have sep: "is_separator CHR ''_''"
      by (simp add: is_separator_def)
    have "dropWhile is_separator (slugify (dropWhile is_separator cs))
            = slugify (dropWhile is_separator cs)"
      using hd_dropWhile_separator [of cs] by (intro dropWhile_slugify) auto
    with True 2 sep show ?thesis by simp
  next
    case False
    with 2 show ?thesis by simp
  qed
qed

theorem slugify_idempotent_witness:
  "slugify ''add  users-table.v2/x'' = ''add_users_table_v2_x''
   \<and> slugify (slugify ''add  users-table.v2/x'') = ''add_users_table_v2_x''"
proof -
  have e: "slugify ''add  users-table.v2/x'' = ''add_users_table_v2_x''"
    by code_simp
  show ?thesis
    using slugify_idempotent [of "''add  users-table.v2/x''"] e by simp
qed

section \<open>File names\<close>




text \<open>
  C9, as the claim states it, fails for the empty set of files: the computed width is 0
  there, not the minimum of 1.
\<close>

theorem idWidth_counterexample: "idWidth [] = 0 \<and> spec_width [] = 1"
  by (simp add: idWidth_def spec_width_def)

text \<open>
  C9, amended. For every non-empty list of files (with non-negative IDs) the computed
  width is the greatest decimal digit length of the IDs, which is at least 1; for the
  empty list it is 0. For a non-negative ID, \<open>filename width id slug\<close> is the ID zero-padded
  to the width, then \<open>-\<close>, the slug and \<open>.sql\<close>.
\<close>

theorem idWidth_filename:
  assumes "\<forall>f \<in> set files. 0 \<le> migrationFile.ID f" and "0 \<le> mid"
  shows "idWidth files = (if files = [] then 0 else spec_width files)
         \<and> (files \<noteq> [] \<longrightarrow> idWidth files = Max ((\<lambda>f. digit_length (nat (migrationFile.ID f))) ` set files))
         \<and> filename w mid slug = zero_pad w (decimal (nat mid)) @ ''-'' @ slug @ ''.sql''
         \<and> length (zero_pad w (decimal (nat mid))) = max w (digit_length (nat mid))"
proof -
  let ?g = "\<lambda>f. digit_length (nat (migrationFile.ID f))"
  have w: "idWidth files = foldr (\<lambda>f m. max (?g f) m) files 0"
    using assms(1) by (simp add: idWidth_foldr foldr_width_cong)
  have a: "idWidth files = (if files = [] then 0 else spec_width files)"
    using w foldr_digit_length_pos [of files] by (auto simp: spec_width_def)
  have m: "xs \<noteq> [] \<Longrightarrow> foldr (\<lambda>f m. max (?g f) m) xs 0 = Max (?g ` set xs)" for xs
  proof (induction xs)
    case Nil
    then show ?case by simp
  next
    case (Cons x xs)
    then show ?case by (cases xs) (simp_all add: max.commute)
  qed
  have c: "filename w mid slug = zero_pad w (decimal (nat mid)) @ ''-'' @ slug @ ''.sql''"
    using assms(2) by (simp add: filename_def Sprintf_0wd_nonneg)
  show ?thesis
    using a w m [of files] c by (simp add: length_zero_pad length_decimal)
qed

theorem idWidth_filename_witness:
  "idWidth [\<lparr>Path = ''m/1-a.sql'', Name = ''1-a.sql'', Content = [], ID = 1, Slug = ''a'', idRaw = ''1''\<rparr>,
            \<lparr>Path = ''m/300-c.sql'', Name = ''300-c.sql'', Content = [], ID = 300, Slug = ''c'', idRaw = ''300''\<rparr>] = 3
   \<and> filename 3 1 ''a'' = ''001-a.sql''"
proof -
  let ?fs = "[\<lparr>Path = ''m/1-a.sql'', Name = ''1-a.sql'', Content = [], ID = 1, Slug = ''a'', idRaw = ''1''\<rparr>,
              \<lparr>Path = ''m/300-c.sql'', Name = ''300-c.sql'', Content = [], ID = 300, Slug = ''c'', idRaw = ''300''\<rparr>]"
  have h: "\<forall>f \<in> set ?fs. 0 \<le> migrationFile.ID f" "(0::int) \<le> 1"
    by simp_all
  have e: "spec_width ?fs = 3" "zero_pad 3 (decimal (nat 1)) = ''001''"
    by code_simp+
  show ?thesis
    using idWidth_filename [OF h, of 3 "''a''"] e by simp
qed

section \<open>The no-transaction directive\<close>

lemma split_lines_nonempty: "split_lines s \<noteq> []"
  by (induction s) (auto split: list.splits)

lemma hd_split_lines: "hd (split_lines s) = takeWhile (\<lambda>c. c \<noteq> CHR 0x0A) s"
  by (induction s) (auto split: list.splits simp: split_lines_nonempty)

lemma tl_split_lines_Cons:
  "c \<noteq> CHR 0x0A \<Longrightarrow> tl (split_lines (c # cs)) = tl (split_lines cs)"
  by (auto split: list.splits simp: split_lines_nonempty)

lemma prefix_takeWhile:
  "\<forall>x \<in> set p. P x \<Longrightarrow> prefix p s \<longleftrightarrow> prefix p (takeWhile P s)"
proof (induction s arbitrary: p)
  case Nil
  then show ?case by simp
next
  case (Cons c s)
  then show ?case by (cases p) auto
qed

lemma directive_no_newline: "\<forall>x \<in> set directive. x \<noteq> CHR 0x0A"
  by (simp add: directive_def)

lemma prefix_directive_first_line:
  "prefix directive s \<longleftrightarrow> prefix directive (hd (split_lines s))"
  unfolding hd_split_lines using directive_no_newline by (rule prefix_takeWhile)

lemma not_prefix_directive_newline: "\<not> prefix directive (CHR 0x0A # cs)"
  by (simp add: directive_def)

lemma directive_nonempty: "directive \<noteq> []"
  by (simp add: directive_def)

lemma match_from_lines:
  "match_from bol s \<longleftrightarrow>
     (bol \<and> prefix directive (hd (split_lines s))) \<or> (\<exists>l \<in> set (tl (split_lines s)). prefix directive l)"
proof (induction s arbitrary: bol)
  case Nil
  show ?case by (simp add: directive_def)
next
  case (Cons c cs)
  show ?case
  proof (cases "c = CHR 0x0A")
    case True
    have "(\<exists>l \<in> set (split_lines cs). prefix directive l)
            \<longleftrightarrow> prefix directive (hd (split_lines cs)) \<or> (\<exists>l \<in> set (tl (split_lines cs)). prefix directive l)"
      using split_lines_nonempty [of cs] by (cases "split_lines cs") auto
    with True Cons [of True] show ?thesis
      by (simp add: not_prefix_directive_newline directive_nonempty)
  next
    case False
    have "prefix directive (c # cs) \<longleftrightarrow> prefix directive (hd (split_lines (c # cs)))"
      by (rule prefix_directive_first_line)
    with False Cons [of False] show ?thesis
      by (simp only: match_from.simps tl_split_lines_Cons [OF False]) auto
  qed
qed

lemma skipTx_lines: "skipTx content = line_starts_with_directive content"
proof -
  have "(\<exists>l \<in> set (split_lines content). prefix directive l)
          \<longleftrightarrow> prefix directive (hd (split_lines content)) \<or> (\<exists>l \<in> set (tl (split_lines content)). prefix directive l)"
    using split_lines_nonempty [of content] by (cases "split_lines content") auto
  then show ?thesis
    by (simp add: skipTx_def line_starts_with_directive_def match_from_lines)
qed


section \<open>apply\<close>

lemma apply_file_skipTx:
  "skipTx (Content f) \<Longrightarrow>
   apply_file drv f d = (fst (drv_Exec drv (Content f) [] d), [DbExec (Content f) []], snd (drv_Exec drv (Content f) [] d))"
  by (simp add: apply_file_def run_def exec_event_def split: prod.splits)

section \<open>The loop of Migrate\<close>

lemma migrate_loop_append:
  "migrate_loop drv upTo (xs @ ys) d =
     (case migrate_loop drv upTo xs d of
        (Some err, ev, d') \<Rightarrow> (Some err, ev, d')
      | (None, ev, d') \<Rightarrow>
          (case migrate_loop drv upTo ys d' of (r, ev', d'') \<Rightarrow> (r, ev @ ev', d'')))"
  by (induction xs arbitrary: d) (auto split: prod.splits option.splits)

lemma applying_names_append:
  "applying_names (a @ b) = applying_names a @ applying_names b"
  by (induction a) (auto split: event.splits list.splits arg.splits)

lemma skipped_names_append:
  "skipped_names (a @ b) = skipped_names a @ skipped_names b"
  by (induction a) (auto split: event.splits list.splits arg.splits)

lemma apply_file_events:
  "apply_file drv f d = (r, ev, d') \<Longrightarrow>
   set ev \<subseteq> {BeginTx, TxExec qClaim [ArgInt (migrationFile.ID f), ArgStr (migrationFile.Slug f)],
              TxExec (Content f) [], Commit, DbExec (Content f) []}"
  by (auto simp: apply_file_def run_def claim_def exec_event_def split: if_splits prod.splits option.splits)

lemma names_no_messages:
  "\<forall>e \<in> set ev. (\<forall>fmt as. e \<noteq> Infof fmt as \<and> e \<noteq> Debugf fmt as) \<Longrightarrow>
   applying_names ev = [] \<and> skipped_names ev = []"
  by (induction ev) (auto split: event.splits list.splits arg.splits)

lemma apply_file_names:
  assumes "apply_file drv f d = (r, ev, d')"
  shows "applying_names ev = []" and "skipped_names ev = []"
  using apply_file_events [OF assms] names_no_messages [of ev] by auto

lemma migrate_loop_names:
  "migrate_loop drv upTo fs d = (r, ev, d') \<Longrightarrow>
   prefix (applying_names ev) (map Name (filter (\<lambda>f. \<not> over_upto upTo f) fs))
   \<and> prefix (skipped_names ev) (map Name (filter (over_upto upTo) fs))
   \<and> (r = None \<longrightarrow> applying_names ev = map Name (filter (\<lambda>f. \<not> over_upto upTo f) fs)
                   \<and> skipped_names ev = map Name (filter (over_upto upTo) fs))"
proof (induction fs arbitrary: d r ev d')
  case Nil
  then show ?case by simp
next
  case (Cons f fs)
  show ?case
  proof (cases "over_upto upTo f")
    case True
    obtain r1 ev1 d1 where l: "migrate_loop drv upTo fs d = (r1, ev1, d1)"
      by (cases "migrate_loop drv upTo fs d") auto
    from Cons.IH [OF l] Cons.prems True l show ?thesis by auto
  next
    case False
    obtain r0 ev0 d0 where a: "apply_file drv f d = (r0, ev0, d0)"
      by (cases "apply_file drv f d") auto
    note n = apply_file_names [OF a]
    show ?thesis
    proof (cases r0)
      case None
      obtain r1 ev1 d1 where l: "migrate_loop drv upTo fs d0 = (r1, ev1, d1)"
        by (cases "migrate_loop drv upTo fs d0") auto
      from Cons.IH [OF l] Cons.prems False a None l n show ?thesis
        by (auto simp: applying_names_append skipped_names_append)
    next
      case (Some e)
      with Cons.prems False a n show ?thesis by auto
    qed
  qed
qed

lemma migrate_loop_error_source:
  "migrate_loop drv upTo fs d = (Some e, ev, d') \<Longrightarrow>
   \<exists>f \<in> set fs. \<not> over_upto upTo f \<and> (\<exists>d1 ev1 d2. apply_file drv f d1 = (Some e, ev1, d2))"
proof (induction fs arbitrary: d ev d')
  case Nil
  then show ?case by simp
next
  case (Cons f fs)
  show ?case
  proof (cases "over_upto upTo f")
    case True
    with Cons.prems obtain ev1 where "migrate_loop drv upTo fs d = (Some e, ev1, d')"
      by (auto split: prod.splits)
    from Cons.IH [OF this] show ?thesis by auto
  next
    case False
    obtain r0 ev0 d0 where a: "apply_file drv f d = (r0, ev0, d0)"
      by (cases "apply_file drv f d") auto
    show ?thesis
    proof (cases r0)
      case None
      with Cons.prems False a obtain ev1 where "migrate_loop drv upTo fs d0 = (Some e, ev1, d')"
        by (auto split: prod.splits)
      from Cons.IH [OF this] show ?thesis by auto
    next
      case (Some e')
      with Cons.prems False a have "e' = e" by auto
      with False a Some show ?thesis by auto
    qed
  qed
qed

section \<open>diff\<close>

lemma skip_lookup:
  "foldl (\<lambda>m r. m(migrationRecord.ID r \<mapsto> ())) m0 rs k = None
     \<longleftrightarrow> m0 k = None \<and> k \<notin> migrationRecord.ID ` set rs"
  by (induction rs arbitrary: m0) auto

lemma diff_sort_filter:
  "diff records files =
     sort_key migrationFile.ID (filter (\<lambda>f. migrationFile.ID f \<notin> migrationRecord.ID ` set records) files)"
  by (simp add: diff_def sort_Slice_def skip_lookup)

lemma not_over_upto:
  "(\<not> over_upto upTo f) = (case upTo of None \<Rightarrow> True | Some c \<Rightarrow> migrationFile.ID f \<le> c)"
  by (auto simp: over_upto_def split: option.splits)

lemma needed_spec_pending:
  "filter (\<lambda>f. \<not> over_upto upTo f) (diff records files)
     = spec_pending (map migrationRecord.ID records) files upTo"
  by (simp add: diff_sort_filter spec_pending_def filter_sort not_over_upto conj_commute)

lemma filter_key_singleton:
  assumes "distinct (map f ys)" and "k \<in> set ys"
  shows "filter (\<lambda>x. f k = f x) ys = [k]"
  using assms
proof (induction ys)
  case Nil
  then show ?case by simp
next
  case (Cons y ys)
  show ?case
  proof (cases "y = k")
    case True
    with Cons.prems have "\<forall>x \<in> set ys. f k \<noteq> f x" by auto
    then have "filter (\<lambda>x. f k = f x) ys = []" by (simp add: filter_empty_conv)
    with True show ?thesis by simp
  next
    case False
    with Cons.prems have k: "k \<in> set ys" and d: "distinct (map f ys)" by auto
    from Cons.prems have "f y \<notin> f ` set ys" by simp
    with k have "f k \<noteq> f y" by (metis imageI)
    with Cons.IH [OF d k] show ?thesis by simp
  qed
qed

lemma sorted_unique:
  assumes "distinct (map f xs)" and "mset ys = mset xs" and "sorted (map f ys)"
  shows "sort_key f xs = ys"
proof (rule properties_for_sort_key)
  show "mset ys = mset xs" by fact
  show "sorted (map f ys)" by fact
  fix k assume k: "k \<in> set ys"
  have "mset (map f ys) = mset (map f xs)"
    using assms(2) by simp
  then have dy: "distinct (map f ys)"
    using assms(1) mset_eq_imp_distinct_iff by blast
  have kx: "k \<in> set xs"
    using k assms(2) mset_eq_setD by blast
  show "filter (\<lambda>x. f k = f x) ys = filter (\<lambda>x. f k = f x) xs"
    by (simp add: filter_key_singleton [OF dy k] filter_key_singleton [OF assms(1) kx])
qed

section \<open>Transactions\<close>

lemma apply_file_tx:
  assumes "\<not> skipTx (Content f)"
      and "drv_Exec drv qClaim [ArgInt (migrationFile.ID f), ArgStr (migrationFile.Slug f)] d = (ce, t1)"
      and "drv_Exec drv (Content f) [] t1 = (xe, t2)"
  shows "apply_file drv f d =
     (case drv_BeginTx drv d of
        Some err \<Rightarrow> (Some err, [BeginTx], d)
      | None \<Rightarrow>
         (case ce of
            Some err \<Rightarrow>
              (Some err, [BeginTx, TxExec qClaim [ArgInt (migrationFile.ID f), ArgStr (migrationFile.Slug f)]], d)
          | None \<Rightarrow>
             (case xe of
                Some err \<Rightarrow>
                  (Some err, [BeginTx, TxExec qClaim [ArgInt (migrationFile.ID f), ArgStr (migrationFile.Slug f)],
                              TxExec (Content f) []], d)
              | None \<Rightarrow>
                 (case drv_Commit drv t2 of
                    Some err \<Rightarrow>
                      (Some err, [BeginTx, TxExec qClaim [ArgInt (migrationFile.ID f), ArgStr (migrationFile.Slug f)],
                                  TxExec (Content f) [], Commit], d)
                  | None \<Rightarrow>
                      (None, [BeginTx, TxExec qClaim [ArgInt (migrationFile.ID f), ArgStr (migrationFile.Slug f)],
                              TxExec (Content f) [], Commit], t2)))))"
  using assms
  by (simp add: apply_file_def claim_def run_def exec_event_def split: option.splits)

text \<open>
  C1. For a file without the directive, \<open>apply\<close> opens a transaction first, then sends the
  claim with \<open>(id, slug)\<close>, then the content, and \<open>Commit\<close> last: its calls are a non-empty
  prefix of that sequence. \<open>Commit\<close> is called exactly when the transaction opened and both
  the claim and the content succeeded. When the claim or the content fails with an error,
  \<open>apply\<close> returns that error without \<open>Commit\<close>, and the contents of the database are what
  they were (so no ledger row for the ID). \<open>Migrate\<close> then returns that very error, and its
  trace ends with the failed file: nothing of the files after it is attempted.
\<close>

theorem apply_transactional:
  assumes nt: "\<not> skipTx (Content f)"
      and ap: "apply_file drv f d = (r, ev, d')"
  shows "ev \<noteq> []
       \<and> prefix ev [BeginTx, TxExec qClaim [ArgInt (migrationFile.ID f), ArgStr (migrationFile.Slug f)],
                    TxExec (Content f) [], Commit]
       \<and> (Commit \<in> set ev \<longleftrightarrow>
            drv_BeginTx drv d = None
            \<and> fst (drv_Exec drv qClaim [ArgInt (migrationFile.ID f), ArgStr (migrationFile.Slug f)] d) = None
            \<and> fst (drv_Exec drv (Content f) []
                     (snd (drv_Exec drv qClaim [ArgInt (migrationFile.ID f), ArgStr (migrationFile.Slug f)] d))) = None)
       \<and> (r = None \<longrightarrow> Commit \<in> set ev)
       \<and> (Commit \<notin> set ev \<longrightarrow> r \<noteq> None)
       \<and> (r \<noteq> None \<longrightarrow> d' = d)
       \<and> (drv_BeginTx drv d = None
            \<and> fst (drv_Exec drv qClaim [ArgInt (migrationFile.ID f), ArgStr (migrationFile.Slug f)] d) = Some e
          \<longrightarrow> r = Some e \<and> Commit \<notin> set ev)
       \<and> (drv_BeginTx drv d = None
            \<and> fst (drv_Exec drv qClaim [ArgInt (migrationFile.ID f), ArgStr (migrationFile.Slug f)] d) = None
            \<and> fst (drv_Exec drv (Content f) []
                     (snd (drv_Exec drv qClaim [ArgInt (migrationFile.ID f), ArgStr (migrationFile.Slug f)] d))) = Some e
          \<longrightarrow> r = Some e \<and> Commit \<notin> set ev)
       \<and> (r = Some e \<and> \<not> over_upto upTo f \<and> migrate_loop drv upTo before d0 = (None, ev0, d)
          \<longrightarrow> migrate_loop drv upTo (before @ f # rest) d0
                = (Some e, ev0 @ Infof ''Applying migration: %s'' [ArgStr (Name f)] # ev, d))
       \<and> (r = Some e \<and> \<not> over_upto upTo f \<and> migrate_loop drv upTo before d0 = (None, ev0, d)
            \<and> applied drv d0 = (Inr records, ev1) \<and> available fsys dir = (Ok files, ev2)
            \<and> diff records files = before @ f # rest
          \<longrightarrow> Migrate drv fsys dir upTo d0
                = (Err e, ev1 @ ev2 @ ev0 @ Infof ''Applying migration: %s'' [ArgStr (Name f)] # ev, d))"
proof -
  let ?args = "[ArgInt (migrationFile.ID f), ArgStr (migrationFile.Slug f)]"
  obtain ce t1 where c: "drv_Exec drv qClaim ?args d = (ce, t1)"
    by (cases "drv_Exec drv qClaim ?args d") auto
  obtain xe t2 where x: "drv_Exec drv (Content f) [] t1 = (xe, t2)"
    by (cases "drv_Exec drv (Content f) [] t1") auto
  note tx = ap [unfolded apply_file_tx [OF nt c x]]
  let ?steps = "[BeginTx, TxExec qClaim ?args, TxExec (Content f) [], Commit]"
  consider (b) e0 where "drv_BeginTx drv d = Some e0"
    | (c) e0 where "drv_BeginTx drv d = None" "ce = Some e0"
    | (x) e0 where "drv_BeginTx drv d = None" "ce = None" "xe = Some e0"
    | (k) e0 where "drv_BeginTx drv d = None" "ce = None" "xe = None" "drv_Commit drv t2 = Some e0"
    | (ok) "drv_BeginTx drv d = None" "ce = None" "xe = None" "drv_Commit drv t2 = None"
    by (cases "drv_BeginTx drv d"; cases ce; cases xe; cases "drv_Commit drv t2") auto
  then have main:
    "ev \<noteq> [] \<and> prefix ev ?steps
     \<and> (Commit \<in> set ev \<longleftrightarrow> drv_BeginTx drv d = None \<and> ce = None \<and> xe = None)
     \<and> (r = None \<longrightarrow> Commit \<in> set ev) \<and> (Commit \<notin> set ev \<longrightarrow> r \<noteq> None)
     \<and> (r \<noteq> None \<longrightarrow> d' = d)
     \<and> (drv_BeginTx drv d = None \<and> ce = Some e \<longrightarrow> r = Some e \<and> Commit \<notin> set ev)
     \<and> (drv_BeginTx drv d = None \<and> ce = None \<and> xe = Some e \<longrightarrow> r = Some e \<and> Commit \<notin> set ev)"
  proof cases
    case b
    with tx have "r = Some e0" "ev = take 1 ?steps" "d' = d" by simp_all
    with b show ?thesis by simp
  next
    case c
    with tx have "r = Some e0" "ev = take 2 ?steps" "d' = d" by simp_all
    with c show ?thesis by simp
  next
    case x
    with tx have "r = Some e0" "ev = take 3 ?steps" "d' = d" by simp_all
    with x show ?thesis by simp
  next
    case k
    with tx have "r = Some e0" "ev = ?steps" "d' = d" by simp_all
    with k show ?thesis by simp
  next
    case ok
    with tx have "r = None" "ev = ?steps" "d' = t2" by simp_all
    with ok show ?thesis by simp
  qed
  then have p6: "r \<noteq> None \<longrightarrow> d' = d" by simp
  have one: "r = Some e \<and> \<not> over_upto upTo f \<longrightarrow>
      migrate_loop drv upTo (f # rest) d = (Some e, Infof ''Applying migration: %s'' [ArgStr (Name f)] # ev, d)"
    using ap p6 by auto
  have p9: "r = Some e \<and> \<not> over_upto upTo f \<and> migrate_loop drv upTo before d0 = (None, ev0, d)
      \<longrightarrow> migrate_loop drv upTo (before @ f # rest) d0
            = (Some e, ev0 @ Infof ''Applying migration: %s'' [ArgStr (Name f)] # ev, d)"
    using one by (simp add: migrate_loop_append del: migrate_loop.simps)
  have p10: "r = Some e \<and> \<not> over_upto upTo f \<and> migrate_loop drv upTo before d0 = (None, ev0, d)
            \<and> applied drv d0 = (Inr records, ev1) \<and> available fsys dir = (Ok files, ev2)
            \<and> diff records files = before @ f # rest
          \<longrightarrow> Migrate drv fsys dir upTo d0
                = (Err e, ev1 @ ev2 @ ev0 @ Infof ''Applying migration: %s'' [ArgStr (Name f)] # ev, d)"
    using p9 by (simp add: Migrate_def del: migrate_loop.simps)
  show ?thesis
    unfolding c x fst_conv snd_conv using main p9 p10 by blast
qed

theorem apply_transactional_witness:
  "\<not> skipTx ''boom''
   \<and> apply_file ledger_driver (demo_file ''5'' 5 ''add_users'' ''boom'') [(0, ''init'')]
       = (Some (PgError ''42601''),
          [BeginTx, TxExec qClaim [ArgInt 5, ArgStr ''add_users''], TxExec ''boom'' []],
          [(0, ''init'')])
   \<and> Migrate ledger_driver demo_dir ''m'' None [(0, ''init'')]
       = (Err (PgError ''42601''),
          [Query qApplied, Infof ''Applying migration: %s'' [ArgStr ''5-add_users.sql''],
           BeginTx, TxExec qClaim [ArgInt 5, ArgStr ''add_users''], TxExec ''boom'' []],
          [(0, ''init'')])"
proof -
  let ?f = "demo_file ''5'' 5 ''add_users'' ''boom''"
  let ?rest = "[demo_file ''7'' 7 ''add_posts'' ''create table posts'']"
  let ?files = "demo_file ''0'' 0 ''init'' ''--drift:no-transaction'' # ?f # ?rest"
  let ?records = "[\<lparr>migrationRecord.ID = 0, migrationRecord.Slug = ''init'', RunAt = 0\<rparr>]"
  let ?ev = "[BeginTx, TxExec qClaim [ArgInt 5, ArgStr ''add_users''], TxExec ''boom'' []]"
  have nt: "\<not> skipTx (Content ?f)"
    by code_simp
  have ap: "apply_file ledger_driver ?f [(0, ''init'')] = (Some (PgError ''42601''), ?ev, [(0, ''init'')])"
    by code_simp
  have h1: "\<not> over_upto None ?f"
    by (simp add: over_upto_def)
  have h2: "migrate_loop ledger_driver None [] [(0, ''init'')] = (None, [], [(0, ''init'')])"
    by simp
  have h3: "applied ledger_driver [(0, ''init'')] = (Inr ?records, [Query qApplied])"
    by code_simp
  have h4: "available demo_dir ''m'' = (Ok ?files, [])"
    by code_simp
  have h5: "diff ?records ?files = [] @ ?f # ?rest"
    by code_simp
  have n: "Name ?f = ''5-add_users.sql''" "Content ?f = ''boom''"
    by (simp_all add: demo_file_def)
  from apply_transactional [OF nt ap, of "PgError ''42601''" None "[]" "[(0, ''init'')]" "[]" ?rest
      ?records "[Query qApplied]" demo_dir "''m''" ?files "[]"]
  have "Migrate ledger_driver demo_dir ''m'' None [(0, ''init'')]
          = (Err (PgError ''42601''), [Query qApplied] @ [] @ [] @ Infof ''Applying migration: %s'' [ArgStr (Name ?f)] # ?ev, [(0, ''init'')])"
    using h1 h2 h3 h4 h5 by blast
  with nt ap n show ?thesis by simp
qed

text \<open>
  C2. For files with unique IDs, the files \<open>Migrate\<close> does not skip (those of \<open>diff\<close> that are
  not over the ceiling) are exactly the available files whose ID is not applied and, with
  a ceiling, not above it, sorted ascending by ID; any sorted arrangement of the unapplied
  files is the one \<open>diff\<close> returns. In a run of the loop the files announced as applied are
  a prefix of that list, all of it when the run succeeds; the files over the ceiling are
  announced with \<open>Debugf\<close> and an error comes only from applying a pending file. With an
  empty ledger and no ceiling every file is pending, in ascending ID order.
\<close>

theorem Migrate_pending:
  assumes "distinct (map migrationFile.ID files)"
  shows "filter (\<lambda>f. \<not> over_upto upTo f) (diff records files)
           = spec_pending (map migrationRecord.ID records) files upTo
       \<and> sorted (map migrationFile.ID (spec_pending (map migrationRecord.ID records) files upTo))
       \<and> set (spec_pending (map migrationRecord.ID records) files upTo)
           = {f \<in> set files. migrationFile.ID f \<notin> migrationRecord.ID ` set records
                \<and> (case upTo of None \<Rightarrow> True | Some c \<Rightarrow> migrationFile.ID f \<le> c)}
       \<and> (mset ys = mset (filter (\<lambda>f. migrationFile.ID f \<notin> migrationRecord.ID ` set records) files)
            \<and> sorted (map migrationFile.ID ys) \<longrightarrow> diff records files = ys)
       \<and> (migrate_loop drv upTo (diff records files) d = (r, ev, d') \<longrightarrow>
            prefix (applying_names ev) (map Name (spec_pending (map migrationRecord.ID records) files upTo))
            \<and> (r = None \<longrightarrow>
                 applying_names ev = map Name (spec_pending (map migrationRecord.ID records) files upTo)
                 \<and> skipped_names ev = map Name (filter (over_upto upTo) (diff records files)))
            \<and> (r = Some e \<longrightarrow>
                 (\<exists>f \<in> set (spec_pending (map migrationRecord.ID records) files upTo).
                    \<exists>d1 ev1 d2. apply_file drv f d1 = (Some e, ev1, d2))))
       \<and> spec_pending [] files None = sort_key migrationFile.ID files
       \<and> diff [] files = sort_key migrationFile.ID files"
proof -
  let ?P = "spec_pending (map migrationRecord.ID records) files upTo"
  let ?absent = "filter (\<lambda>f. migrationFile.ID f \<notin> migrationRecord.ID ` set records) files"
  have a: "filter (\<lambda>f. \<not> over_upto upTo f) (diff records files) = ?P"
    by (rule needed_spec_pending)
  have b: "sorted (map migrationFile.ID ?P)"
    by (simp add: spec_pending_def)
  have c: "set ?P = {f \<in> set files. migrationFile.ID f \<notin> migrationRecord.ID ` set records
                \<and> (case upTo of None \<Rightarrow> True | Some c \<Rightarrow> migrationFile.ID f \<le> c)}"
    by (auto simp: spec_pending_def)
  have "distinct (map migrationFile.ID ?absent)"
    using assms by (simp add: distinct_map_filter)
  then have u: "mset ys = mset ?absent \<and> sorted (map migrationFile.ID ys) \<longrightarrow> diff records files = ys"
    unfolding diff_sort_filter using sorted_unique [of migrationFile.ID ?absent ys] by blast
  have l: "migrate_loop drv upTo (diff records files) d = (r, ev, d') \<longrightarrow>
            prefix (applying_names ev) (map Name ?P)
            \<and> (r = None \<longrightarrow> applying_names ev = map Name ?P
                 \<and> skipped_names ev = map Name (filter (over_upto upTo) (diff records files)))
            \<and> (r = Some e \<longrightarrow> (\<exists>f \<in> set ?P. \<exists>d1 ev1 d2. apply_file drv f d1 = (Some e, ev1, d2)))"
  proof
    assume m: "migrate_loop drv upTo (diff records files) d = (r, ev, d')"
    have "r = Some e \<longrightarrow> (\<exists>f \<in> set ?P. \<exists>d1 ev1 d2. apply_file drv f d1 = (Some e, ev1, d2))"
    proof
      assume "r = Some e"
      with m migrate_loop_error_source [of drv upTo "diff records files" d e ev d']
      obtain f where "f \<in> set (diff records files)" "\<not> over_upto upTo f"
        "\<exists>d1 ev1 d2. apply_file drv f d1 = (Some e, ev1, d2)" by blast
      moreover from this have "f \<in> set ?P" unfolding a [symmetric] by simp
      ultimately show "\<exists>f \<in> set ?P. \<exists>d1 ev1 d2. apply_file drv f d1 = (Some e, ev1, d2)" by blast
    qed
    with migrate_loop_names [OF m] show "prefix (applying_names ev) (map Name ?P)
            \<and> (r = None \<longrightarrow> applying_names ev = map Name ?P
                 \<and> skipped_names ev = map Name (filter (over_upto upTo) (diff records files)))
            \<and> (r = Some e \<longrightarrow> (\<exists>f \<in> set ?P. \<exists>d1 ev1 d2. apply_file drv f d1 = (Some e, ev1, d2)))"
      unfolding a by blast
  qed
  have e: "spec_pending [] files None = sort_key migrationFile.ID files"
    by (simp add: spec_pending_def)
  have f: "diff [] files = sort_key migrationFile.ID files"
    by (simp add: diff_sort_filter)
  from a b c u l e f show ?thesis by blast
qed

theorem Migrate_pending_witness:
  "distinct (map migrationFile.ID demo_files)
   \<and> diff [\<lparr>migrationRecord.ID = 0, migrationRecord.Slug = ''init'', RunAt = 0\<rparr>] demo_files
       = [demo_file ''5'' 5 ''add_users'' ''create table users'', demo_file ''7'' 7 ''add_posts'' ''create table posts'']
   \<and> spec_pending [0] demo_files (Some 5) = [demo_file ''5'' 5 ''add_users'' ''create table users'']
   \<and> fst (snd (migrate_loop ledger_driver (Some 5)
         (diff [\<lparr>migrationRecord.ID = 0, migrationRecord.Slug = ''init'', RunAt = 0\<rparr>] demo_files) [(0, ''init'')]))
       = [Infof ''Applying migration: %s'' [ArgStr ''5-add_users.sql''],
          BeginTx, TxExec qClaim [ArgInt 5, ArgStr ''add_users''], TxExec ''create table users'' [], Commit,
          Debugf ''Skipping migration because of upto=%d: %s'' [ArgPtr (Some 5), ArgStr ''7-add_posts.sql'']]"
proof -
  let ?records = "[\<lparr>migrationRecord.ID = 0, migrationRecord.Slug = ''init'', RunAt = 0\<rparr>]"
  let ?ev = "[Infof ''Applying migration: %s'' [ArgStr ''5-add_users.sql''],
          BeginTx, TxExec qClaim [ArgInt 5, ArgStr ''add_users''], TxExec ''create table users'' [], Commit,
          Debugf ''Skipping migration because of upto=%d: %s'' [ArgPtr (Some 5), ArgStr ''7-add_posts.sql'']]"
  have h: "distinct (map migrationFile.ID demo_files)"
    by code_simp
  have d: "diff ?records demo_files
       = [demo_file ''5'' 5 ''add_users'' ''create table users'', demo_file ''7'' 7 ''add_posts'' ''create table posts'']"
    by code_simp
  have m: "migrate_loop ledger_driver (Some 5) (diff ?records demo_files) [(0, ''init'')]
             = (None, ?ev, [(0, ''init''), (5, ''add_users'')])"
    by code_simp
  have n: "map Name [demo_file ''5'' 5 ''add_users'' ''create table users''] = [''5-add_users.sql'']"
    by (simp add: demo_file_def)
  have x: "filter (\<lambda>f. \<not> over_upto (Some 5) f)
             [demo_file ''5'' 5 ''add_users'' ''create table users'', demo_file ''7'' 7 ''add_posts'' ''create table posts'']
           = [demo_file ''5'' 5 ''add_users'' ''create table users'']"
    by (simp add: over_upto_def demo_file_def)
  note Migrate_pending [OF h, of "Some 5" ?records, THEN conjunct1]
  with d x have "spec_pending [0] demo_files (Some 5) = [demo_file ''5'' 5 ''add_users'' ''create table users'']"
    by simp
  with h d m show ?thesis by simp
qed

text \<open>
  C4, as the claim states it, fails both ways: a directive after leading whitespace is
  not recognised by the code, and a line that merely starts with the literal is.
\<close>

theorem skipTx_counterexample:
  "spec_no_transaction ''  --drift:no-transaction'' \<and> \<not> skipTx ''  --drift:no-transaction''
   \<and> skipTx ''--drift:no-transactions, please'' \<and> \<not> spec_no_transaction ''--drift:no-transactions, please''"
  by code_simp

text \<open>
  C4, amended. Transaction-wrapping and the claim are disabled exactly when some line of
  the content starts with the literal \<open>--drift:no-transaction\<close> (at the very start of the
  line; anything may follow). Then the content is executed directly on the handle, with
  no transaction and no claim. Otherwise \<open>apply\<close> starts with \<open>BeginTx\<close>, and sends the claim
  next when the transaction opens.
\<close>

theorem skipTx_directive:
  "skipTx (Content f) = line_starts_with_directive (Content f)
   \<and> (skipTx (Content f) \<longrightarrow>
        apply_file drv f d = (fst (drv_Exec drv (Content f) [] d), [DbExec (Content f) []],
                              snd (drv_Exec drv (Content f) [] d)))
   \<and> (\<not> skipTx (Content f) \<longrightarrow>
        (\<exists>ev. fst (snd (apply_file drv f d)) = BeginTx # ev)
        \<and> (drv_BeginTx drv d = None \<longrightarrow>
             take 2 (fst (snd (apply_file drv f d)))
               = [BeginTx, TxExec qClaim [ArgInt (migrationFile.ID f), ArgStr (migrationFile.Slug f)]]))"
proof -
  have a: "skipTx (Content f) = line_starts_with_directive (Content f)"
    by (rule skipTx_lines)
  have b: "skipTx (Content f) \<longrightarrow>
        apply_file drv f d = (fst (drv_Exec drv (Content f) [] d), [DbExec (Content f) []],
                              snd (drv_Exec drv (Content f) [] d))"
    by (simp add: apply_file_skipTx)
  have c: "\<not> skipTx (Content f) \<longrightarrow>
        (\<exists>ev. fst (snd (apply_file drv f d)) = BeginTx # ev)
        \<and> (drv_BeginTx drv d = None \<longrightarrow>
             take 2 (fst (snd (apply_file drv f d)))
               = [BeginTx, TxExec qClaim [ArgInt (migrationFile.ID f), ArgStr (migrationFile.Slug f)]])"
  proof
    assume nt: "\<not> skipTx (Content f)"
    obtain ce t1 where c: "drv_Exec drv qClaim [ArgInt (migrationFile.ID f), ArgStr (migrationFile.Slug f)] d = (ce, t1)"
      by (cases "drv_Exec drv qClaim [ArgInt (migrationFile.ID f), ArgStr (migrationFile.Slug f)] d") auto
    obtain xe t2 where x: "drv_Exec drv (Content f) [] t1 = (xe, t2)"
      by (cases "drv_Exec drv (Content f) [] t1") auto
    show "(\<exists>ev. fst (snd (apply_file drv f d)) = BeginTx # ev)
        \<and> (drv_BeginTx drv d = None \<longrightarrow>
             take 2 (fst (snd (apply_file drv f d)))
               = [BeginTx, TxExec qClaim [ArgInt (migrationFile.ID f), ArgStr (migrationFile.Slug f)]])"
      unfolding apply_file_tx [OF nt c x] by (simp split: option.splits)
  qed
  from a b c show ?thesis by blast
qed

theorem skipTx_directive_witness:
  "skipTx (''-- bootstrap'' @ [CHR 0x0A] @ ''--drift:no-transaction'' @ [CHR 0x0A] @ ''begin;'')
   \<and> split_lines (''-- bootstrap'' @ [CHR 0x0A] @ ''--drift:no-transaction'' @ [CHR 0x0A] @ ''begin;'')
       = [''-- bootstrap'', ''--drift:no-transaction'', ''begin;'']
   \<and> fst (snd (apply_file ledger_driver
         (demo_file ''0'' 0 ''init'' (''-- bootstrap'' @ [CHR 0x0A] @ ''--drift:no-transaction'' @ [CHR 0x0A] @ ''begin;''))
         []))
       = [DbExec (''-- bootstrap'' @ [CHR 0x0A] @ ''--drift:no-transaction'' @ [CHR 0x0A] @ ''begin;'') []]"
proof -
  let ?c = "''-- bootstrap'' @ [CHR 0x0A] @ ''--drift:no-transaction'' @ [CHR 0x0A] @ ''begin;''"
  let ?f = "demo_file ''0'' 0 ''init'' ?c"
  have c: "Content ?f = ?c"
    by (simp add: demo_file_def)
  have l: "line_starts_with_directive ?c"
    by code_simp
  have s: "split_lines ?c = [''-- bootstrap'', ''--drift:no-transaction'', ''begin;'']"
    by code_simp
  note t = skipTx_directive [of ?f ledger_driver "[]", unfolded c]
  from t [THEN conjunct1] l have k: "skipTx ?c"
    by (simp only:)
  note t [THEN conjunct2, THEN conjunct1, THEN mp, OF k]
  with k s show ?thesis by (simp only: fst_conv snd_conv simp_thms)
qed

text \<open>
  C5. When the ledger query fails with an error that carries the undefined-table code
  \<open>42P01\<close>, \<open>applied\<close> returns no records and no error; when it fails with any other error,
  \<open>applied\<close> returns that error, and \<open>Migrate\<close> passes it on (wrapped) without doing
  anything else.
\<close>

theorem applied_undefined_table:
  assumes "drv_Query drv qApplied d = Inl err"
  shows "(errors_As_PgError err = Some ''42P01'' \<longrightarrow> applied drv d = (Inr [], [Query qApplied]))
       \<and> (errors_As_PgError err \<noteq> Some ''42P01'' \<longrightarrow>
            applied drv d = (Inl err, [Query qApplied])
            \<and> Migrate drv fsys dir upTo d
                = (Err (Errorf ''could not get applied migrations: %w'' [] err), [Query qApplied], d))"
  using assms by (simp add: applied_def Migrate_def)

theorem applied_undefined_table_witness:
  "applied (failing_driver (Errorf ''query: %w'' [] (PgError ''42P01''))) () = (Inr [], [Query qApplied])
   \<and> applied (failing_driver (PgError ''28P01'')) () = (Inl (PgError ''28P01''), [Query qApplied])
   \<and> applied (failing_driver (SysError ''connection refused'')) ()
       = (Inl (SysError ''connection refused''), [Query qApplied])"
proof -
  have q: "drv_Query (failing_driver e) qApplied () = Inl e" for e
    by (simp add: failing_driver_def)
  have c: "errors_As_PgError (Errorf ''query: %w'' [] (PgError ''42P01'')) = Some ''42P01''"
    "errors_As_PgError (PgError ''28P01'') \<noteq> Some ''42P01''"
    "errors_As_PgError (SysError ''connection refused'') \<noteq> Some ''42P01''"
    by simp_all
  from applied_undefined_table [OF q, THEN conjunct1, THEN mp, OF c(1)]
    applied_undefined_table [OF q, THEN conjunct2, THEN mp, OF c(2), THEN conjunct1]
    applied_undefined_table [OF q, THEN conjunct2, THEN mp, OF c(3), THEN conjunct1]
  show ?thesis by (simp only: simp_thms)
qed

section \<open>Discovery\<close>

lemma scan_entries_Ok:
  "scan_entries d dir names = (Ok ms, ev) \<Longrightarrow>
   map Name ms = filter (\<lambda>n. reFilename_FindStringSubmatch n \<noteq> None) names
   \<and> (\<forall>m \<in> set ms. reFilename_FindStringSubmatch (Name m) = Some (idRaw m, migrationFile.Slug m)
          \<and> mustID (idRaw m) = Inr (migrationFile.ID m)
          \<and> os_ReadFile d (Name m) = Inr (Content m)
          \<and> Path m = filepath_Join dir (Name m))"
proof (induction names arbitrary: ms ev)
  case Nil
  then show ?case by simp
next
  case (Cons n names)
  show ?case
  proof (cases "reFilename_FindStringSubmatch n")
    case None
    with Cons.prems obtain ev' where "scan_entries d dir names = (Ok ms, ev')"
      by (auto split: prod.splits)
    from Cons.IH [OF this] None show ?thesis by simp
  next
    case (Some p)
    obtain raw slug where p: "p = (raw, slug)" by (cases p)
    from Cons.prems Some p obtain content mid ms' where
      r: "os_ReadFile d n = Inr content" and i: "mustID raw = Inr mid"
      and s: "scan_entries d dir names = (Ok ms', ev)"
      and m: "ms = \<lparr>Path = filepath_Join dir n, Name = n, Content = content,
                    ID = mid, Slug = slug, idRaw = raw\<rparr> # ms'"
      by (auto split: sum.splits prod.splits result.splits)
    from Cons.IH [OF s] Some p r i m show ?thesis by simp
  qed
qed

lemma scan_entries_total:
  assumes "\<forall>n \<in> set names. \<forall>raw slug. reFilename_FindStringSubmatch n = Some (raw, slug) \<longrightarrow>
             (\<exists>c. os_ReadFile d n = Inr c) \<and> (\<exists>j. mustID raw = Inr j)"
  shows "\<exists>ms ev. scan_entries d dir names = (Ok ms, ev)"
  using assms
proof (induction names)
  case Nil
  then show ?case by simp
next
  case (Cons n names)
  then obtain ms ev where s: "scan_entries d dir names = (Ok ms, ev)" by auto
  show ?case
  proof (cases "reFilename_FindStringSubmatch n")
    case None
    with s show ?thesis by simp
  next
    case (Some p)
    obtain raw slug where p: "p = (raw, slug)" by (cases p)
    with Cons.prems Some obtain c j where "os_ReadFile d n = Inr c" "mustID raw = Inr j"
      by (metis list.set_intros(1))
    with s Some p show ?thesis by simp
  qed
qed

lemma scan_entries_events:
  "scan_entries d dir names = (r, ev) \<Longrightarrow> \<forall>e \<in> set ev. \<exists>n. e = Debugf ''Ignoring non-migration file: %s'' [ArgStr n]"
proof (induction names arbitrary: r ev)
  case Nil
  then show ?case by simp
next
  case (Cons n names)
  show ?case
  proof (cases "reFilename_FindStringSubmatch n")
    case None
    with Cons.prems obtain ev' where "scan_entries d dir names = (r, ev')" and "ev = Debugf ''Ignoring non-migration file: %s'' [ArgStr n] # ev'"
      by (auto split: prod.splits)
    with Cons.IH show ?thesis by auto
  next
    case (Some p)
    obtain r' ev' where s: "scan_entries d dir names = (r', ev')"
      by (cases "scan_entries d dir names") auto
    with Cons.prems Some have "ev = [] \<or> ev = ev'"
      by (auto split: sum.splits prod.splits result.splits)
    with Cons.IH [OF s] show ?thesis by auto
  qed
qed

lemma check_seen_None:
  "check_seen seen ms = None \<longleftrightarrow>
     distinct (map migrationFile.ID ms) \<and> (\<forall>m \<in> set ms. seen (migrationFile.ID m) = None)"
proof (induction ms arbitrary: seen)
  case Nil
  show ?case by simp
next
  case (Cons a ms)
  show ?case
  proof (cases "seen (migrationFile.ID a)")
    case (Some other)
    then show ?thesis by auto
  next
    case None
    have "check_seen seen (a # ms) = None \<longleftrightarrow> check_seen (seen(migrationFile.ID a \<mapsto> a)) ms = None"
      using None by simp
    also have "\<dots> \<longleftrightarrow> distinct (map migrationFile.ID ms)
        \<and> (\<forall>m \<in> set ms. (seen(migrationFile.ID a \<mapsto> a)) (migrationFile.ID m) = None)"
      by (rule Cons.IH)
    also have "\<dots> \<longleftrightarrow> distinct (map migrationFile.ID (a # ms))
        \<and> (\<forall>m \<in> set (a # ms). seen (migrationFile.ID m) = None)"
      using None by (auto simp: image_iff)
    finally show ?thesis .
  qed
qed

lemma check_seen_Some:
  "check_seen seen ms = Some e \<Longrightarrow> errors_Is e ErrDuplicateID"
  by (induction ms arbitrary: seen) (auto split: option.splits)

lemma check_seen_distinct:
  "distinct (map migrationFile.ID ms) \<Longrightarrow> check_seen (\<lambda>x. None) ms = None"
  by (simp add: check_seen_None)

lemma available_Ok:
  "available d dir = (Ok ms, ev) \<longleftrightarrow>
     (\<exists>names. os_ReadDir d = Inr names \<and> scan_entries d dir names = (Ok ms, ev)
        \<and> distinct (map migrationFile.ID ms))"
  by (auto simp: available_def check_seen_None check_seen_distinct
      split: sum.splits prod.splits result.splits option.splits)

lemma available_events:
  "available d dir = (r, ev) \<Longrightarrow> \<forall>e \<in> set ev. \<exists>n. e = Debugf ''Ignoring non-migration file: %s'' [ArgStr n]"
  by (auto simp: available_def split: sum.splits prod.splits result.splits option.splits
      dest!: scan_entries_events)

lemma available_unchanged_events:
  "available d dir = (r, ev) \<Longrightarrow> \<forall>e \<in> set ev. \<not> executes e \<and> \<not> changes_directory e"
  by (drule available_events) (auto simp: changes_directory_def)

lemma applied_events: "applied drv db = (r, ev) \<Longrightarrow> ev = [Query qApplied]"
  by (auto simp: applied_def split: sum.splits if_splits)

text \<open>
  C3, as the claim states it, fails when another matching entry cannot be read: two files
  share the ID 1, and discovery fails with the read error of the third entry, which is
  not the duplicate-ID error.
\<close>

theorem available_duplicate_counterexample:
  "reFilename_FindStringSubmatch ''01-b.sql'' = Some (''01'', ''b'') \<and> mustID ''01'' = Inr 1
   \<and> reFilename_FindStringSubmatch ''1-a.sql'' = Some (''1'', ''a'') \<and> mustID ''1'' = Inr 1
   \<and> available (Some [(''01-b.sql'', File ''B''), (''1-a.sql'', File ''A''), (''2-c.sql'', Subdir)]) ''m''
       = (Err EISDIR, [])
   \<and> \<not> errors_Is EISDIR ErrDuplicateID"
  by code_simp

text \<open>
  C3, amended. When two different listed names match the filename pattern and parse to
  the same ID, discovery never succeeds; when moreover every matching entry can be read
  and its digits fit an int64, it fails with the duplicate-ID error. In every such case
  \<open>Migrate\<close> fails without executing anything on the database, whose contents stay as
  they were.
\<close>

theorem available_duplicate:
  assumes rd: "os_ReadDir d = Inr names"
      and n1: "n1 \<in> set names" and n2: "n2 \<in> set names" and ne: "n1 \<noteq> n2"
      and m1: "reFilename_FindStringSubmatch n1 = Some (r1, s1)"
      and m2: "reFilename_FindStringSubmatch n2 = Some (r2, s2)"
      and i1: "mustID r1 = Inr i" and i2: "mustID r2 = Inr i"
  shows "(\<forall>ms ev. available d dir \<noteq> (Ok ms, ev))
       \<and> ((\<forall>n \<in> set names. \<forall>raw slug. reFilename_FindStringSubmatch n = Some (raw, slug) \<longrightarrow>
               (\<exists>c. os_ReadFile d n = Inr c) \<and> (\<exists>j. mustID raw = Inr j))
            \<longrightarrow> (\<exists>e ev. available d dir = (Err e, ev) \<and> errors_Is e ErrDuplicateID))
       \<and> (\<exists>r ev. Migrate drv d dir upTo db = (r, ev, db) \<and> r \<noteq> Ok ()
             \<and> (\<forall>x \<in> set ev. \<not> executes x))"
proof -
  have no: "\<not> distinct (map migrationFile.ID ms)" if s: "scan_entries d dir names = (Ok ms, ev)" for ms ev
  proof
    assume dist: "distinct (map migrationFile.ID ms)"
    note p = scan_entries_Ok [OF s]
    from p n1 m1 have "n1 \<in> set (map Name ms)" by simp
    then obtain a where a: "a \<in> set ms" "Name a = n1" by auto
    from p n2 m2 have "n2 \<in> set (map Name ms)" by simp
    then obtain b where b: "b \<in> set ms" "Name b = n2" by auto
    from p a m1 i1 have "migrationFile.ID a = i" by auto
    moreover from p b m2 i2 have "migrationFile.ID b = i" by auto
    moreover from a b ne have "a \<noteq> b" by auto
    ultimately show False
      using dist a(1) b(1) by (auto simp: distinct_map inj_on_def)
  qed
  have a: "\<forall>ms ev. available d dir \<noteq> (Ok ms, ev)"
    using no rd by (auto simp: available_Ok)
  have b: "(\<forall>n \<in> set names. \<forall>raw slug. reFilename_FindStringSubmatch n = Some (raw, slug) \<longrightarrow>
               (\<exists>c. os_ReadFile d n = Inr c) \<and> (\<exists>j. mustID raw = Inr j))
            \<longrightarrow> (\<exists>e ev. available d dir = (Err e, ev) \<and> errors_Is e ErrDuplicateID)"
  proof
    assume "\<forall>n \<in> set names. \<forall>raw slug. reFilename_FindStringSubmatch n = Some (raw, slug) \<longrightarrow>
               (\<exists>c. os_ReadFile d n = Inr c) \<and> (\<exists>j. mustID raw = Inr j)"
    from scan_entries_total [OF this]
    obtain ms ev where s: "scan_entries d dir names = (Ok ms, ev)" by blast
    from no [OF s] obtain e where c: "check_seen Map.empty ms = Some e"
      by (cases "check_seen Map.empty ms") (auto simp: check_seen_None)
    with rd s have "available d dir = (Err e, ev)"
      by (simp add: available_def)
    with check_seen_Some [OF c] show "\<exists>e ev. available d dir = (Err e, ev) \<and> errors_Is e ErrDuplicateID"
      by blast
  qed
  obtain ra ev1 where ap: "applied drv db = (ra, ev1)"
    by (cases "applied drv db") auto
  obtain rv ev2 where av: "available d dir = (rv, ev2)"
    by (cases "available d dir") auto
  from a av have nok: "\<forall>ms. rv \<noteq> Ok ms" by auto
  have e1: "\<forall>x \<in> set ev1. \<not> executes x"
    using applied_events [OF ap] by simp
  have e2: "\<forall>x \<in> set ev2. \<not> executes x"
    using available_unchanged_events [OF av] by simp
  have c: "\<exists>r ev. Migrate drv d dir upTo db = (r, ev, db) \<and> r \<noteq> Ok () \<and> (\<forall>x \<in> set ev. \<not> executes x)"
  proof (cases ra)
    case (Inl err)
    with ap e1 show ?thesis by (simp add: Migrate_def)
  next
    case (Inr records)
    with ap av nok e1 e2 show ?thesis
      by (cases rv) (auto simp: Migrate_def)
  qed
  from a b c show ?thesis by blast
qed

theorem available_duplicate_witness:
  "available duplicate_dir ''m''
     = (Err (Errorf ''%w: %s, %s'' [ArgStr ''01-b.sql'', ArgStr ''1-a.sql''] ErrDuplicateID),
        [Debugf ''Ignoring non-migration file: %s'' [ArgStr ''notes.txt'']])
   \<and> errors_Is (Errorf ''%w: %s, %s'' [ArgStr ''01-b.sql'', ArgStr ''1-a.sql''] ErrDuplicateID) ErrDuplicateID"
proof -
  let ?names = "[''01-b.sql'', ''1-a.sql'', ''notes.txt'']"
  let ?E = "Errorf ''%w: %s, %s'' [ArgStr ''01-b.sql'', ArgStr ''1-a.sql''] ErrDuplicateID"
  have rd: "os_ReadDir duplicate_dir = Inr ?names"
    by code_simp
  have h: "''01-b.sql'' \<in> set ?names" "''1-a.sql'' \<in> set ?names" "''01-b.sql'' \<noteq> ''1-a.sql''"
    by simp_all
  have m: "reFilename_FindStringSubmatch ''01-b.sql'' = Some (''01'', ''b'')"
    "reFilename_FindStringSubmatch ''1-a.sql'' = Some (''1'', ''a'')"
    by code_simp+
  have i: "mustID ''01'' = Inr 1" "mustID ''1'' = Inr 1"
    by code_simp+
  have all: "\<forall>n \<in> set ?names. \<forall>raw slug. reFilename_FindStringSubmatch n = Some (raw, slug) \<longrightarrow>
               (\<exists>c. os_ReadFile duplicate_dir n = Inr c) \<and> (\<exists>j. mustID raw = Inr j)"
  proof -
    have "os_ReadFile duplicate_dir ''01-b.sql'' = Inr ''B''" "os_ReadFile duplicate_dir ''1-a.sql'' = Inr ''A''"
      "reFilename_FindStringSubmatch ''notes.txt'' = None"
      by code_simp+
    with m i show ?thesis by simp
  qed
  have av: "available duplicate_dir ''m'' = (Err ?E, [Debugf ''Ignoring non-migration file: %s'' [ArgStr ''notes.txt'']])"
    by code_simp
  from available_duplicate [OF rd h m i, THEN conjunct2, THEN conjunct1, THEN mp, OF all, of "''m''"]
  obtain e ev where "available duplicate_dir ''m'' = (Err e, ev)" "errors_Is e ErrDuplicateID"
    by blast
  with av show ?thesis by simp
qed

end
